theory Spec2Isabelle
  imports Complex_Main "HOL-Library.Char_ord" "HOL-Library.List_Lexorder" "HOL-Library.Sublist"
    "HOL-Library.AList"
begin

text \<open>
  A verification development for the wedding budget tracker (\<open>src/App.jsx\<close>). The first
  half embeds the code: the derived view model, the document store, the adapter that turns
  a snapshot into component state, the login effects and the actions, and the CSV export.
  The second half proves properties of these definitions.
\<close>

section \<open>Wedding budget tracker: the derived view model\<close>

text \<open>
  The application keeps one React component \<open>App\<close> (\<open>src/App.jsx\<close>). Its derived data
  (\<open>totalSpent\<close>, \<open>totalPaid\<close>, \<open>remaining\<close>, \<open>pct\<close>) is recomputed from the
  \<open>expenses\<close> array and the \<open>totalBudget\<close> number at every render. JavaScript numbers are
  modelled as reals: rounding of doubles and NaN are outside the model.
\<close>

subsection \<open>Expense records as the view model reads them\<close>

text \<open>
  An element of the \<open>expenses\<close> state array. \<open>date\<close> is optional: the code reads it as
  \<open>e.date || ""\<close> everywhere, and \<open>None\<close> stands for an absent field.
\<close>

record expense =
  exp_id :: string
  category :: string
  description :: string
  vendor :: string
  amount :: real
  status :: string
  date :: "string option"

text \<open>\<open>expenses.reduce((s, e) => s + e.amount, 0)\<close>\<close>

definition totalSpent :: "expense list \<Rightarrow> real" where
  "totalSpent expenses = foldl (\<lambda>s e. s + amount e) 0 expenses"

text \<open>\<open>expenses.filter((e) => e.status === "paid").reduce((s, e) => s + e.amount, 0)\<close>\<close>

definition totalPaid :: "expense list \<Rightarrow> real" where
  "totalPaid expenses = foldl (\<lambda>s e. s + amount e) 0 (filter (\<lambda>e. status e = ''paid'') expenses)"

definition remaining :: "real \<Rightarrow> expense list \<Rightarrow> real" where
  "remaining totalBudget expenses = totalBudget - totalSpent expenses"

text \<open>\<open>totalBudget > 0 ? Math.min((totalSpent / totalBudget) * 100, 100) : 0\<close>\<close>

definition pct :: "real \<Rightarrow> expense list \<Rightarrow> real" where
  "pct totalBudget expenses =
     (if totalBudget > 0 then min ((totalSpent expenses / totalBudget) * 100) 100 else 0)"

subsection \<open>The budget-used bar and its warning\<close>

text \<open>
  The dashboard renders, below the bar,
  \<^verbatim>\<open>{pct > 90 && <div>... {pct > 100 ? "Over budget!" : "Approaching budget limit"}</div>}\<close>
  and colours the bar by \<open>pct > 100 ? red : pct > 80 ? amber : brown\<close>. Both read the same
  \<open>pct\<close> that the bar's width uses.
\<close>

datatype warning = NoWarning | ApproachingLimit | OverBudget

definition budget_warning :: "real \<Rightarrow> warning" where
  "budget_warning p = (if p > 90 then (if p > 100 then OverBudget else ApproachingLimit) else NoWarning)"

datatype bar_colour = Red | Amber | Brown

definition bar_background :: "real \<Rightarrow> bar_colour" where
  "bar_background p = (if p > 100 then Red else if p > 80 then Amber else Brown)"

text \<open>What the dashboard shows for a budget and an expense list.\<close>

definition dashboard_warning :: "real \<Rightarrow> expense list \<Rightarrow> warning" where
  "dashboard_warning totalBudget expenses = budget_warning (pct totalBudget expenses)"

text \<open>
  The per-category cards of the same dashboard compute their own flag from the unclamped
  amounts: \<open>const over = c.spent > c.budget && c.budget > 0\<close>.
\<close>

definition category_over :: "real \<Rightarrow> real \<Rightarrow> bool" where
  "category_over spent budget = (spent > budget \<and> budget > 0)"

subsection \<open>Invite keys\<close>

text \<open>
  \<open>s.replace(/\./g, ",")\<close>: every full stop becomes a comma, every other character stays.
\<close>

definition sanitize :: "string \<Rightarrow> string" where
  "sanitize s = map (\<lambda>c. if c = CHR ''.'' then CHR '','' else c) s"

text \<open>
  \<open>String.prototype.trim\<close> removes white space at both ends. A string is the list of
  its characters, text outside ASCII being its UTF-8 bytes; the white space is tab, line
  feed, vertical tab, form feed, carriage return and space.
\<close>

definition is_space :: "char \<Rightarrow> bool" where
  "is_space c = (c \<in> set [CHR 0x09, CHR 0x0A, CHR 0x0B, CHR 0x0C, CHR 0x0D, CHR '' ''])"

definition trim :: "string \<Rightarrow> string" where
  "trim s = rev (dropWhile is_space (rev (dropWhile is_space s)))"

text \<open>
  \<open>handleInvite\<close> stores the invite under \<open>invites/${inviteEmail.trim().replace(/\./g, ",")}\<close>
  and does nothing for a blank input; the login effect reads
  \<open>invites/${user.email.replace(/\./g, ",")}\<close> and does nothing for an empty email.
\<close>

definition invite_key_created :: "string \<Rightarrow> string option" where
  "invite_key_created inviteEmail =
     (if trim inviteEmail = [] then None else Some (sanitize (trim inviteEmail)))"

definition invite_key_consumed :: "string \<Rightarrow> string option" where
  "invite_key_consumed email = (if email = [] then None else Some (sanitize email))"

subsection \<open>The filtered and sorted expense list\<close>

text \<open>
  \<open>toLowerCase\<close> maps the ASCII capitals to their small letters and leaves every other
  character; \<open>s.includes(q)\<close>: \<open>q\<close> occurs in \<open>s\<close> as a contiguous substring.
\<close>

definition toLowerChar :: "char \<Rightarrow> char" where
  "toLowerChar c =
     (case map_of (zip ''ABCDEFGHIJKLMNOPQRSTUVWXYZ'' ''abcdefghijklmnopqrstuvwxyz'') c of
        Some l \<Rightarrow> l | None \<Rightarrow> c)"

definition toLowerCase :: "string \<Rightarrow> string" where
  "toLowerCase s = map toLowerChar s"

fun str_includes :: "string \<Rightarrow> string \<Rightarrow> bool" where
  "str_includes [] q = (q = [])"
| "str_includes (c # cs) q = (prefix q (c # cs) \<or> str_includes cs q)"

text \<open>
  JavaScript arrays are objects on the heap, and \<open>filteredExpenses\<close> starts with
  \<open>let list = expenses\<close>: \<open>list\<close> is a second reference to the state array, not a
  copy. The heap maps array references to their contents; \<open>Array.prototype.filter\<close>
  allocates a new array, \<open>Array.prototype.sort\<close> reorders the array it is called on and
  returns the same reference.
\<close>

record heap =
  cells :: "nat \<Rightarrow> expense list option"
  fresh :: nat

definition deref :: "heap \<Rightarrow> nat \<Rightarrow> expense list" where
  "deref h a = (case cells h a of Some xs \<Rightarrow> xs | None \<Rightarrow> [])"

definition alloc :: "expense list \<Rightarrow> heap \<Rightarrow> nat \<times> heap" where
  "alloc xs h = (fresh h, h\<lparr>cells := (cells h)(fresh h \<mapsto> xs), fresh := Suc (fresh h)\<rparr>)"

definition array_filter :: "(expense \<Rightarrow> bool) \<Rightarrow> nat \<times> heap \<Rightarrow> nat \<times> heap" where
  "array_filter p lh = (case lh of (list, h) \<Rightarrow> alloc (filter p (deref h list)) h)"

text \<open>
  The comparator is \<open>(a, b) => (b.date || "").localeCompare(a.date || "")\<close>: a negative
  result puts \<open>a\<close> first, so the larger date string comes first. \<open>localeCompare\<close> is
  taken as the lexicographic order of the characters, which is how it orders ISO dates. The
  sort is stable (ECMAScript 2019), and a stable sort has one result whatever the engine's
  algorithm; insertion from the left computes it.
\<close>

definition date_key :: "expense \<Rightarrow> string" where
  "date_key e = (case date e of None \<Rightarrow> [] | Some d \<Rightarrow> d)"

fun insert_desc :: "expense \<Rightarrow> expense list \<Rightarrow> expense list" where
  "insert_desc e [] = [e]"
| "insert_desc e (x # xs) = (if date_key x < date_key e then e # x # xs else x # insert_desc e xs)"

definition sort_desc :: "expense list \<Rightarrow> expense list" where
  "sort_desc xs = foldl (\<lambda>acc e. insert_desc e acc) [] xs"

definition array_sort :: "nat \<times> heap \<Rightarrow> nat \<times> heap" where
  "array_sort lh =
     (case lh of (list, h) \<Rightarrow> (list, h\<lparr>cells := (cells h)(list \<mapsto> sort_desc (deref h list))\<rparr>))"

text \<open>
  \<^verbatim>\<open>
  let list = expenses;
  if (filterCat !== "all") list = list.filter((e) => e.category === filterCat);
  if (filterStatus !== "all") list = list.filter((e) => e.status === filterStatus);
  if (searchTerm) { const q = searchTerm.toLowerCase();
    list = list.filter((e) => e.description.toLowerCase().includes(q)
                           || e.vendor.toLowerCase().includes(q)); }
  return list.sort((a, b) => (b.date || "").localeCompare(a.date || ""));
  \<close>
  The function takes the reference held by the \<open>expenses\<close> state and the heap, and returns
  the reference of the result and the heap after the call.
\<close>

definition filteredExpenses :: "string \<Rightarrow> string \<Rightarrow> string \<Rightarrow> nat \<Rightarrow> heap \<Rightarrow> nat \<times> heap" where
  "filteredExpenses filterCat filterStatus searchTerm expenses h =
     (let lh = (expenses, h);
          lh = (if filterCat \<noteq> ''all'' then array_filter (\<lambda>e. category e = filterCat) lh else lh);
          lh = (if filterStatus \<noteq> ''all'' then array_filter (\<lambda>e. status e = filterStatus) lh else lh);
          lh = (if searchTerm \<noteq> [] then
                  (let q = toLowerCase searchTerm
                   in array_filter (\<lambda>e. str_includes (toLowerCase (description e)) q
                                        \<or> str_includes (toLowerCase (vendor e)) q) lh)
                else lh)
      in array_sort lh)"

text \<open>Two expenses used as a concrete input: a January and a February payment.\<close>

definition hall_jan :: expense where
  "hall_jan = \<lparr>exp_id = ''k1'', category = ''venue'', description = ''Hall'', vendor = ''Manor'',
       amount = 100, status = ''paid'', date = Some ''2024-01-01''\<rparr>"

definition dj_feb :: expense where
  "dj_feb = \<lparr>exp_id = ''k2'', category = ''music'', description = ''DJ Booking'', vendor = ''Bloom Co'',
       amount = 50, status = ''unpaid'', date = Some ''2024-02-01''\<rparr>"

definition two_expense_heap :: heap where
  "two_expense_heap = \<lparr>cells = [0 \<mapsto> [hall_jan, dj_feb]], fresh = 1\<rparr>"

section \<open>The document store\<close>

text \<open>
  The store is the external realtime database that \<open>App.jsx\<close> talks to through
  \<open>ref\<close>, \<open>get\<close>, \<open>set\<close>, \<open>remove\<close> and \<open>onValue\<close>; this section states what those
  calls do. The database is one JSON tree; a snapshot value and every value the application
  writes are JSON values as well. \<open>JNull\<close> is the absent value: \<open>null\<close> from the store
  (\<open>snap.exists()\<close> is false) and \<open>undefined\<close> for a property that an object does not have.
  The store keeps no null and no empty object, so inside a snapshot value an absent
  property is the only way \<open>JNull\<close> arises.
\<close>

datatype json = JNull | JBool bool | JNum real | JStr string | JObj "(string \<times> json) list"

definition children :: "json \<Rightarrow> (string \<times> json) list" where
  "children j = (case j of JObj kvs \<Rightarrow> kvs | _ \<Rightarrow> [])"

text \<open>\<open>j.k\<close> for the property names the code reads, and the child \<open>k\<close> of a store node.\<close>

definition field :: "json \<Rightarrow> string \<Rightarrow> json" where
  "field j k = (case map_of (children j) k of None \<Rightarrow> JNull | Some v \<Rightarrow> v)"

definition truthy :: "json \<Rightarrow> bool" where
  "truthy j = (case j of JNull \<Rightarrow> False | JBool b \<Rightarrow> b | JNum n \<Rightarrow> n \<noteq> 0
                | JStr s \<Rightarrow> s \<noteq> [] | JObj kvs \<Rightarrow> True)"

text \<open>\<open>a ?? b\<close>\<close>

definition nullish :: "json \<Rightarrow> json \<Rightarrow> json" where
  "nullish a b = (if a = JNull then b else a)"


text \<open>
  A value inside a template literal, \<open>`...${v}...`\<close>: a string stands for itself. What the
  runtime prints for any other value is the parameter \<open>to_string\<close>.
\<close>

definition template :: "(json \<Rightarrow> string) \<Rightarrow> json \<Rightarrow> string" where
  "template to_string v = (case v of JStr s \<Rightarrow> s | _ \<Rightarrow> to_string v)"

subsection \<open>Paths\<close>

text \<open>
  \<open>ref(db, path)\<close> addresses the node reached by the segments of \<open>path\<close> between
  slashes; empty segments are skipped.
\<close>

fun split_slash :: "string \<Rightarrow> string list" where
  "split_slash [] = [[]]"
| "split_slash (c # cs) =
     (if c = CHR ''/'' then [] # split_slash cs
      else (case split_slash cs of [] \<Rightarrow> [[c]] | s # ss \<Rightarrow> (c # s) # ss))"

definition path_of :: "string \<Rightarrow> string list" where
  "path_of p = filter (\<lambda>seg. seg \<noteq> []) (split_slash p)"

subsection \<open>Reading and writing\<close>

text \<open>A node with no children left does not exist.\<close>

definition node :: "(string \<times> json) list \<Rightarrow> json" where
  "node kvs = (if kvs = [] then JNull else JObj kvs)"

definition put_child :: "string \<Rightarrow> json \<Rightarrow> json \<Rightarrow> json" where
  "put_child k c t =
     node (if c = JNull then AList.delete k (children t) else AList.update k c (children t))"

text \<open>\<open>set\<close> overwrites the node at a path, creating the nodes above it; writing \<open>JNull\<close> removes.\<close>

fun set_at :: "string list \<Rightarrow> json \<Rightarrow> json \<Rightarrow> json" where
  "set_at [] v t = v"
| "set_at (k # ks) v t = put_child k (set_at ks v (field t k)) t"

fun lookup :: "string list \<Rightarrow> json \<Rightarrow> json" where
  "lookup [] t = t"
| "lookup (k # ks) t = lookup ks (field t k)"

text \<open>\<open>get(ref(db, p))\<close> resolved: the snapshot value at \<open>p\<close>.\<close>

definition get :: "string \<Rightarrow> json \<Rightarrow> json" where
  "get p db = lookup (path_of p) db"

text \<open>
  The writes an action issues, in order: \<open>set(ref(db, p), v)\<close> and \<open>remove(ref(db, p))\<close>.
  A single client's writes reach the store in the order they were issued.
\<close>

datatype op = Set string json | Remove string

fun apply_op :: "json \<Rightarrow> op \<Rightarrow> json" where
  "apply_op db (Set p v) = set_at (path_of p) v db"
| "apply_op db (Remove p) = set_at (path_of p) JNull db"

definition apply_ops :: "op list \<Rightarrow> json \<Rightarrow> json" where
  "apply_ops ops db = foldl apply_op db ops"

text \<open>An object literal written to the store: a property whose value is null is not stored.\<close>

definition stored_obj :: "(string \<times> json) list \<Rightarrow> json" where
  "stored_obj kvs = node (filter (\<lambda>kv. snd kv \<noteq> JNull) kvs)"

subsection \<open>Objects in JavaScript\<close>

fun dec :: "nat \<Rightarrow> string" where
  "dec n = (if n < 10 then [''0123456789'' ! n] else dec (n div 10) @ [''0123456789'' ! (n mod 10)])"

declare dec.simps [simp del]

text \<open>
  \<open>Object.entries(v)\<close>: the own properties of an object in order, the indexed characters
  of a string, nothing for a number or a boolean.
\<close>

definition object_entries :: "json \<Rightarrow> (string \<times> json) list" where
  "object_entries v =
     (case v of JObj kvs \<Rightarrow> kvs
      | JStr s \<Rightarrow> zip (map dec [0 ..< length s]) (map (\<lambda>c. JStr [c]) s)
      | _ \<Rightarrow> [])"

definition object_values :: "json \<Rightarrow> json list" where
  "object_values v = map snd (object_entries v)"

text \<open>
  \<open>{ key: k, ...e }\<close>: the property \<open>key\<close> is created first, then the own properties of
  \<open>e\<close> are copied over in order, each replacing a property of the same name.
\<close>

definition spread_over :: "(string \<times> json) list \<Rightarrow> json \<Rightarrow> (string \<times> json) list" where
  "spread_over base e = foldl (\<lambda>obj kv. AList.update (fst kv) (snd kv) obj) base (object_entries e)"

definition with_key :: "string \<Rightarrow> string \<times> json \<Rightarrow> json" where
  "with_key key ke = JObj (spread_over [(key, JStr (fst ke))] (snd ke))"

section \<open>The household state and its adapter\<close>

subsection \<open>Default categories\<close>

text \<open>
  A category as the application's own code builds it: \<open>{ id, name, icon, budget }\<close>. The
  icons are emoji, written here as their UTF-8 bytes.
\<close>

record category_rec =
  cat_id :: string
  cat_name :: string
  cat_icon :: string
  cat_budget :: real

definition category_json :: "category_rec \<Rightarrow> json" where
  "category_json c = JObj [(''id'', JStr (cat_id c)), (''name'', JStr (cat_name c)),
                           (''icon'', JStr (cat_icon c)), (''budget'', JNum (cat_budget c))]"

definition DEFAULT_CATEGORIES :: "category_rec list" where
  "DEFAULT_CATEGORIES =
     [\<lparr>cat_id = ''venue'', cat_name = ''Venue'', cat_icon = [CHR 0xF0, CHR 0x9F, CHR 0x8F, CHR 0x9B], cat_budget = 0\<rparr>,
      \<lparr>cat_id = ''catering'', cat_name = ''Catering'', cat_icon = [CHR 0xF0, CHR 0x9F, CHR 0x8D, CHR 0xBD], cat_budget = 0\<rparr>,
      \<lparr>cat_id = ''decoration'', cat_name = ''Decoration'', cat_icon = [CHR 0xF0, CHR 0x9F, CHR 0x92, CHR 0x90], cat_budget = 0\<rparr>,
      \<lparr>cat_id = ''photography'', cat_name = ''Photography'', cat_icon = [CHR 0xF0, CHR 0x9F, CHR 0x93, CHR 0xB8], cat_budget = 0\<rparr>,
      \<lparr>cat_id = ''outfit'', cat_name = ''Outfit & Attire'', cat_icon = [CHR 0xF0, CHR 0x9F, CHR 0x91, CHR 0x97], cat_budget = 0\<rparr>,
      \<lparr>cat_id = ''invitations'', cat_name = ''Invitations'', cat_icon = [CHR 0xF0, CHR 0x9F, CHR 0x92, CHR 0x8C], cat_budget = 0\<rparr>,
      \<lparr>cat_id = ''music'', cat_name = ''Music / DJ'', cat_icon = [CHR 0xF0, CHR 0x9F, CHR 0x8E, CHR 0xB5], cat_budget = 0\<rparr>,
      \<lparr>cat_id = ''transport'', cat_name = ''Transportation'', cat_icon = [CHR 0xF0, CHR 0x9F, CHR 0x9A, CHR 0x97], cat_budget = 0\<rparr>,
      \<lparr>cat_id = ''misc'', cat_name = ''Miscellaneous'', cat_icon = [CHR 0xE2, CHR 0x9C, CHR 0xA8], cat_budget = 0\<rparr>]"

subsection \<open>Component state fed by the subscription\<close>

text \<open>
  The adapter keeps the records of a snapshot as the JSON values they are; the derived view
  model above reads the same records through their typed fields.

  The \<open>useState\<close> cells that the \<open>onValue\<close> handler sets, with their initial values:
  \<open>totalBudget\<close> 30000, \<open>categories\<close> \<open>DEFAULT_CATEGORIES\<close>, \<open>costPerGuest\<close> 75,
  \<open>darkMode\<close> false, \<open>dataLoaded\<close> false and the other collections empty.
\<close>

record app_state =
  st_totalBudget :: json
  st_costPerGuest :: json
  st_darkMode :: json
  st_categories :: "json list"
  st_expenses :: "json list"
  st_guests :: "json list"
  st_vendors :: "json list"
  st_members :: "json list"
  st_dataLoaded :: bool

definition initial_state :: app_state where
  "initial_state =
     \<lparr>st_totalBudget = JNum 30000, st_costPerGuest = JNum 75, st_darkMode = JBool False,
      st_categories = map category_json DEFAULT_CATEGORIES, st_expenses = [], st_guests = [],
      st_vendors = [], st_members = [], st_dataLoaded = False\<rparr>"

text \<open>
  The handler of the wedding subscription, applied to the snapshot value \<open>d\<close>
  (\<open>JNull\<close> when the snapshot does not exist):
  \<^verbatim>\<open>
  if (!snap.exists()) return;
  const d = snap.val();
  setTotalBudget(d.totalBudget ?? 30000);
  setCostPerGuest(d.costPerGuest ?? 75);
  setDarkMode(d.darkMode ?? false);
  if (d.categories) { setCategories(Object.values(d.categories)); }
  if (d.expenses) { setExpenses(Object.entries(d.expenses).map(([id, e]) => ({ id, ...e }))); }
  else { setExpenses([]); }
  ... guests and vendors as expenses, members with ({ uid: id, ...m }) ...
  setDataLoaded(true);
  \<close>
\<close>

definition apply_snapshot :: "json \<Rightarrow> app_state \<Rightarrow> app_state" where
  "apply_snapshot d st =
     (if d = JNull then st
      else st\<lparr>
        st_totalBudget := nullish (field d ''totalBudget'') (JNum 30000),
        st_costPerGuest := nullish (field d ''costPerGuest'') (JNum 75),
        st_darkMode := nullish (field d ''darkMode'') (JBool False),
        st_categories := (if truthy (field d ''categories'')
                          then object_values (field d ''categories'') else st_categories st),
        st_expenses := (if truthy (field d ''expenses'')
                        then map (with_key ''id'') (object_entries (field d ''expenses'')) else []),
        st_guests := (if truthy (field d ''guests'')
                      then map (with_key ''id'') (object_entries (field d ''guests'')) else []),
        st_vendors := (if truthy (field d ''vendors'')
                       then map (with_key ''id'') (object_entries (field d ''vendors'')) else []),
        st_members := (if truthy (field d ''members'')
                       then map (with_key ''uid'') (object_entries (field d ''members'')) else []),
        st_dataLoaded := True\<rparr>)"

section \<open>Actions and effects\<close>

text \<open>The authenticated user as the identity provider gives it.\<close>

record user =
  uid :: string
  email :: "string option"
  displayName :: "string option"

definition opt_json :: "string option \<Rightarrow> json" where
  "opt_json v = (case v of None \<Rightarrow> JNull | Some s \<Rightarrow> JStr s)"

text \<open>\<open>a || b\<close> on nullable strings.\<close>

definition js_or :: "string option \<Rightarrow> string option \<Rightarrow> string option" where
  "js_or a b = (case a of None \<Rightarrow> b | Some s \<Rightarrow> if s = [] then b else Some s)"

subsection \<open>Write helpers\<close>

text \<open>
  \<open>dbSet(path, val)\<close> is \<open>if (weddingId) set(ref(db, `weddings/${weddingId}/${path}`), val)\<close>
  and \<open>dbRemove(path)\<close> the same with \<open>remove\<close>; \<open>weddingId\<close> is the component's state.
\<close>

definition dbSet :: "(json \<Rightarrow> string) \<Rightarrow> json \<Rightarrow> string \<Rightarrow> json \<Rightarrow> op list" where
  "dbSet to_string weddingId path val =
     (if truthy weddingId then [Set (''weddings/'' @ template to_string weddingId @ ''/'' @ path) val]
      else [])"


subsection \<open>Resolving the wedding id\<close>

text \<open>
  The effect run when \<open>user\<close> changes. \<open>wid\<close> is the key that \<open>push(ref(db, "weddings"))\<close>
  generates and \<open>now\<close> the clock; the result is the writes issued and the new
  \<open>weddingId\<close> state. The seed is
  \<open>DEFAULT_CATEGORIES.reduce((acc, c) => { acc[c.id] = c; return acc; }, {})\<close>.
\<close>

definition seed_categories :: "(string \<times> json) list" where
  "seed_categories = foldl (\<lambda>acc c. AList.update (cat_id c) (category_json c) acc) [] DEFAULT_CATEGORIES"

definition resolveWedding :: "user option \<Rightarrow> string \<Rightarrow> nat \<Rightarrow> json \<Rightarrow> op list \<times> json" where
  "resolveWedding usr wid now db =
     (case usr of None \<Rightarrow> ([], JNull)
      | Some u \<Rightarrow>
          (let snap = get (''users/'' @ uid u) db in
           if snap \<noteq> JNull \<and> truthy (field snap ''weddingId'') then ([], field snap ''weddingId'')
           else
             ([Set (''weddings/'' @ wid)
                 (JObj [(''owner'', JStr (uid u)), (''createdAt'', JNum (real now)),
                        (''totalBudget'', JNum 30000), (''costPerGuest'', JNum 75),
                        (''darkMode'', JBool False), (''categories'', JObj seed_categories)]),
               Set (''weddings/'' @ wid @ ''/members/'' @ uid u)
                 (stored_obj [(''email'', opt_json (email u)),
                              (''name'', opt_json (js_or (displayName u) (email u))),
                              (''role'', JStr ''owner''), (''joinedAt'', JNum (real now))]),
               Set (''users/'' @ uid u)
                 (stored_obj [(''weddingId'', JStr wid), (''email'', opt_json (email u))])],
              JStr wid)))"

subsection \<open>Invites\<close>

text \<open>
  \<open>handleInvite\<close>: nothing for a blank input, otherwise one write under \<open>invites/\<close>.
\<close>

definition handleInvite :: "json \<Rightarrow> string \<Rightarrow> user \<Rightarrow> nat \<Rightarrow> op list" where
  "handleInvite weddingId inviteEmail u now =
     (case invite_key_created inviteEmail of None \<Rightarrow> []
      | Some key \<Rightarrow>
          [Set (''invites/'' @ key)
             (stored_obj [(''weddingId'', weddingId), (''invitedBy'', opt_json (email u)),
                          (''invitedAt'', JNum (real now))])])"

text \<open>
  The invite check run when \<open>user\<close> changes; \<open>w\<close> is the \<open>weddingId\<close> state before it.
  \<^verbatim>\<open>
  if (!user || !user.email) return;
  const emailKey = user.email.replace(/\./g, ",");
  const invRef = ref(db, `invites/${emailKey}`);
  get(invRef).then((snap) => {
    if (snap.exists()) {
      const { weddingId: invWid } = snap.val();
      set(ref(db, `users/${user.uid}`), { weddingId: invWid, email: user.email });
      set(ref(db, `weddings/${invWid}/members/${user.uid}`),
          { email: user.email, name: user.displayName || user.email, role: "partner",
            joinedAt: Date.now() });
      remove(invRef);
      setWeddingId(invWid);
    }
  });
  \<close>
  The store's \<open>set\<close> rejects a value with an undefined property by throwing, so an invite
  record without \<open>weddingId\<close> ends the callback at the first \<open>set\<close>, before any write.
\<close>

definition inviteCheck :: "(json \<Rightarrow> string) \<Rightarrow> user option \<Rightarrow> nat \<Rightarrow> json \<Rightarrow> json \<Rightarrow> op list \<times> json" where
  "inviteCheck to_string usr now db w =
     (case usr of None \<Rightarrow> ([], w)
      | Some u \<Rightarrow>
          (case email u of None \<Rightarrow> ([], w)
           | Some em \<Rightarrow>
               (case invite_key_consumed em of None \<Rightarrow> ([], w)
                | Some emailKey \<Rightarrow>
                    (let snap = get (''invites/'' @ emailKey) db in
                     if snap = JNull then ([], w)
                     else
                       (let invWid = field snap ''weddingId'' in
                        if invWid = JNull then ([], w)
                        else
                          ([Set (''users/'' @ uid u)
                              (JObj [(''weddingId'', invWid), (''email'', JStr em)]),
                            Set (''weddings/'' @ template to_string invWid @ ''/members/'' @ uid u)
                              (JObj [(''email'', JStr em),
                                     (''name'', opt_json (js_or (displayName u) (Some em))),
                                     (''role'', JStr ''partner''),
                                     (''joinedAt'', JNum (real now))]),
                            Remove (''invites/'' @ emailKey)],
                           invWid))))))"

subsection \<open>Categories\<close>

text \<open>\<open>s.replace(/\s+/g, "-")\<close>: every run of white space becomes one hyphen.\<close>

fun dash_runs :: "bool \<Rightarrow> string \<Rightarrow> string" where
  "dash_runs in_run [] = []"
| "dash_runs in_run (c # cs) =
     (if is_space c then (if in_run then dash_runs True cs else CHR ''-'' # dash_runs True cs)
      else c # dash_runs False cs)"

text \<open>\<open>n.toString(36)\<close> for a non-negative integer, and \<open>s.slice(-4)\<close>.\<close>

fun base36 :: "nat \<Rightarrow> string" where
  "base36 n =
     (if n < 36 then [''0123456789abcdefghijklmnopqrstuvwxyz'' ! n]
      else base36 (n div 36) @ [''0123456789abcdefghijklmnopqrstuvwxyz'' ! (n mod 36)])"

declare base36.simps [simp del]

definition last4 :: "string \<Rightarrow> string" where
  "last4 s = drop (length s - 4) s"

text \<open>
  \<^verbatim>\<open>
  if (!newCatName.trim()) return;
  const id = newCatName.trim().toLowerCase().replace(/\s+/g, "-")
             + "-" + Date.now().toString(36).slice(-4);
  dbSet(`categories/${id}`, { id, name: newCatName.trim(), icon: newCatIcon, budget: 0 });
  \<close>
\<close>

definition new_category_id :: "string \<Rightarrow> nat \<Rightarrow> string" where
  "new_category_id newCatName now =
     dash_runs False (toLowerCase (trim newCatName)) @ ''-'' @ last4 (base36 now)"

definition addCategory :: "(json \<Rightarrow> string) \<Rightarrow> json \<Rightarrow> string \<Rightarrow> string \<Rightarrow> nat \<Rightarrow> op list" where
  "addCategory to_string weddingId newCatName newCatIcon now =
     (if trim newCatName = [] then []
      else
        (let new_id = new_category_id newCatName now in
         dbSet to_string weddingId (''categories/'' @ new_id)
           (category_json \<lparr>cat_id = new_id, cat_name = trim newCatName, cat_icon = newCatIcon,
                           cat_budget = 0\<rparr>)))"


subsection \<open>A concrete invite\<close>

text \<open>A user with a pending invite into household \<open>w1\<close>, used as a concrete input.\<close>

definition ann :: user where
  "ann = \<lparr>uid = ''u2'', email = Some ''ann.lee@x.com'', displayName = None\<rparr>"

definition invited_db :: json where
  "invited_db = JObj [(''invites'', JObj [(''ann,lee@x,com'',
       JObj [(''weddingId'', JStr ''w1''), (''invitedBy'', JStr ''bob@x.com''), (''invitedAt'', JNum 1)])])]"

subsection \<open>What a normalized record is\<close>

text \<open>
  \<open>keyed_copy key (k, e) r\<close>: the record \<open>r\<close> has the properties of the stored record
  \<open>e\<close> with their values, and the property \<open>key\<close>, whose value is the store key \<open>k\<close>
  unless \<open>e\<close> has a property \<open>key\<close> of its own, which then stays.
\<close>

definition keyed_copy :: "string \<Rightarrow> string \<times> json \<Rightarrow> json \<Rightarrow> bool" where
  "keyed_copy key ke r =
     (field r key = (case map_of (object_entries (snd ke)) key of None \<Rightarrow> JStr (fst ke) | Some v \<Rightarrow> v)
      \<and> (\<forall>fv \<in> set (object_entries (snd ke)). fst fv \<noteq> key \<longrightarrow> field r (fst fv) = snd fv)
      \<and> set (map fst (children r)) = insert key (set (map fst (object_entries (snd ke)))))"

text \<open>
  Two snapshots used as concrete inputs: one whose category \<open>venue\<close> and expense
  \<open>k1\<close> carry an \<open>id\<close> of their own that is not their key, and one with no optional
  field at all.
\<close>

definition foreign_id_snapshot :: json where
  "foreign_id_snapshot =
     JObj [(''totalBudget'', JNum 20000),
           (''categories'', JObj [(''venue'', JObj [(''id'', JStr ''hall''), (''name'', JStr ''Venue''),
                                                     (''icon'', JStr ''V''), (''budget'', JNum 0)])]),
           (''expenses'', JObj [(''k1'', JObj [(''id'', JStr ''zzz''), (''category'', JStr ''venue''),
                                                (''description'', JStr ''Deposit''), (''amount'', JNum 500)]),
                                (''k2'', JObj [(''category'', JStr ''hall''),
                                                (''description'', JStr ''Chairs''), (''amount'', JNum 80)])])]"

definition bare_snapshot :: json where
  "bare_snapshot = JObj [(''owner'', JStr ''u1'')]"

subsection \<open>A concrete household\<close>

text \<open>
  The store after the first login of a user with no profile and no invite, and the same
  store after that user adds the custom category \<open>Hair / Makeup\<close>.
\<close>

definition bob :: user where
  "bob = \<lparr>uid = ''u1'', email = Some ''bob@x.com'', displayName = Some ''Bob''\<rparr>"

definition bootstrapped_db :: json where
  "bootstrapped_db = apply_ops (fst (resolveWedding (Some bob) ''w1'' 1700000000000 JNull)) JNull"

definition hair_makeup_db :: json where
  "hair_makeup_db =
     apply_ops (addCategory (\<lambda>v. []) (JStr ''w1'') ''Hair / Makeup'' ''*'' 1700000000000) bootstrapped_db"

subsection \<open>Well-formed store keys and stored expenses\<close>





section \<open>CSV export\<close>



text \<open>
  \<open>x.toFixed(2)\<close>: the sign, then the integer \<open>n\<close> nearest to \<open>|x| * 100\<close> (the larger
  one of two nearest) written with its last two digits after the point. Amounts are below
  \<open>10^21\<close>, where \<open>toFixed\<close> has not yet switched to exponent notation.
\<close>

definition toFixed2 :: "real \<Rightarrow> string" where
  "toFixed2 x =
     (let n = nat \<lfloor>\<bar>x\<bar> * 100 + 1 / 2\<rfloor>
      in (if x < 0 then ''-'' else []) @ dec (n div 100) @ ''.''
         @ [''0123456789'' ! (n mod 100 div 10), ''0123456789'' ! (n mod 10)])"






subsection \<open>Reading the exported text back\<close>









section \<open>Scenarios\<close>

text \<open>
  The two expenses of the filter scenario, the list a result reference denotes, and the
  condition an expense has to meet to be listed, written out once.
\<close>

definition flowers :: expense where
  "flowers = \<lparr>exp_id = ''k1'', category = ''decoration'', description = ''Flowers'', vendor = ''Bloom Co'',
       amount = 300, status = ''paid'', date = Some ''2024-03-01''\<rparr>"

definition dj_booking :: expense where
  "dj_booking = \<lparr>exp_id = ''k2'', category = ''music'', description = ''DJ Booking'', vendor = ''Bloom Co'',
       amount = 450, status = ''unpaid'', date = Some ''2024-02-01''\<rparr>"

definition flowers_dj_heap :: heap where
  "flowers_dj_heap = \<lparr>cells = [0 \<mapsto> [flowers, dj_booking]], fresh = 1\<rparr>"

definition shown :: "nat \<times> heap \<Rightarrow> expense list" where
  "shown r = deref (snd r) (fst r)"

definition matches :: "string \<Rightarrow> string \<Rightarrow> string \<Rightarrow> expense \<Rightarrow> bool" where
  "matches filterCat filterStatus searchTerm e =
     ((filterCat = ''all'' \<or> category e = filterCat)
      \<and> (filterStatus = ''all'' \<or> status e = filterStatus)
      \<and> (searchTerm = [] \<or> str_includes (toLowerCase (description e)) (toLowerCase searchTerm)
           \<or> str_includes (toLowerCase (vendor e)) (toLowerCase searchTerm)))"

text \<open>A stand-in for the runtime's printing of values that are not strings.\<close>

definition sample_to_string :: "json \<Rightarrow> string" where
  "sample_to_string v = []"

section \<open>Properties of the derived view model\<close>

lemma foldl_amount_shift: "foldl (\<lambda>s e. s + amount e) a es = a + foldl (\<lambda>s e. s + amount e) 0 es"
proof (induction es arbitrary: a)
  case Nil
  show ?case by simp
next
  case (Cons e es)
  have "foldl (\<lambda>s e. s + amount e) (a + amount e) es = (a + amount e) + foldl (\<lambda>s e. s + amount e) 0 es"
    by (rule Cons.IH)
  moreover have "foldl (\<lambda>s e. s + amount e) (0 + amount e) es = (0 + amount e) + foldl (\<lambda>s e. s + amount e) 0 es"
    by (rule Cons.IH)
  ultimately show ?case by simp
qed

lemma totalSpent_Cons: "totalSpent (e # es) = amount e + totalSpent es"
  unfolding totalSpent_def using foldl_amount_shift [of "amount e" es] by simp

lemma totalSpent_sum_list: "totalSpent es = sum_list (map amount es)"
  by (induction es) (simp_all add: totalSpent_Cons, simp add: totalSpent_def)


lemma pct_le_100: "pct totalBudget expenses \<le> 100"
  by (simp add: pct_def)

lemma budget_warning_never_over: "dashboard_warning totalBudget expenses \<noteq> OverBudget"
  using pct_le_100 [of totalBudget expenses]
  by (simp add: dashboard_warning_def budget_warning_def)

text \<open>
  C1. Claim: whenever \<open>totalSpent > totalBudget > 0\<close> the dashboard's over-budget warning
  fires. On the code it does not: with a budget of 100 and a single expense of 200 the
  clamped \<open>pct\<close> is exactly 100, the test \<open>pct > 100\<close> fails, and the dashboard shows
  the "approaching budget limit" text and the amber bar, while the per-category flag of the
  same amounts is raised.
\<close>

theorem over_budget_warning_not_shown:
  "totalSpent [\<lparr>exp_id = ''e1'', category = ''venue'', description = ''Hall'', vendor = ''V'',
       amount = 200, status = ''unpaid'', date = None\<rparr>] > 100
   \<and> (100::real) > 0
   \<and> pct 100 [\<lparr>exp_id = ''e1'', category = ''venue'', description = ''Hall'', vendor = ''V'',
       amount = 200, status = ''unpaid'', date = None\<rparr>] = 100
   \<and> dashboard_warning 100 [\<lparr>exp_id = ''e1'', category = ''venue'', description = ''Hall'', vendor = ''V'',
       amount = 200, status = ''unpaid'', date = None\<rparr>] = ApproachingLimit
   \<and> bar_background (pct 100 [\<lparr>exp_id = ''e1'', category = ''venue'', description = ''Hall'', vendor = ''V'',
       amount = 200, status = ''unpaid'', date = None\<rparr>]) = Amber
   \<and> category_over 200 100"
  by (simp add: totalSpent_def pct_def dashboard_warning_def budget_warning_def bar_background_def
      category_over_def)



section \<open>Invite keys\<close>


lemma invite_paths_differ_on_padded_input:
  "invite_key_created '' ann@x.com'' = Some ''ann@x,com''
   \<and> invite_key_consumed '' ann@x.com'' = Some '' ann@x,com''"
  by (simp add: invite_key_created_def invite_key_consumed_def trim_def is_space_def sanitize_def)




section \<open>The filtered list and the state array\<close>

lemma deref_array_filter_old:
  "a < fresh (snd lh) \<Longrightarrow> deref (snd (array_filter p lh)) a = deref (snd lh) a"
  by (cases lh) (simp add: array_filter_def alloc_def deref_def)

lemma array_filter_result:
  "fst (array_filter p lh) = fresh (snd lh) \<and> fresh (snd (array_filter p lh)) = Suc (fresh (snd lh))"
  by (cases lh) (simp add: array_filter_def alloc_def)

lemma deref_array_sort_other:
  "a \<noteq> fst lh \<Longrightarrow> deref (snd (array_sort lh)) a = deref (snd lh) a"
  by (cases lh) (simp add: array_sort_def deref_def)

text \<open>
  C2. Claim: computing the filtered list leaves the \<open>expenses\<close> array the same sequence,
  also for the all/all/empty-search setting. With no filter active \<open>list\<close> is still the
  state array when \<open>sort\<close> runs: the expenses \<open>[January, February]\<close> held at reference 0
  are \<open>[February, January]\<close> after the call, and the result is reference 0 itself.
\<close>

theorem filteredExpenses_reorders_state_array:
  "deref two_expense_heap 0 = [hall_jan, dj_feb]
   \<and> fst (filteredExpenses ''all'' ''all'' [] 0 two_expense_heap) = 0
   \<and> deref (snd (filteredExpenses ''all'' ''all'' [] 0 two_expense_heap)) 0 = [dj_feb, hall_jan]
   \<and> [dj_feb, hall_jan] \<noteq> [hall_jan, dj_feb]"
  by (simp add: filteredExpenses_def array_sort_def deref_def two_expense_heap_def sort_desc_def
      hall_jan_def dj_feb_def date_key_def)

text \<open>
  With any filter active the sort runs on a fresh array, and the state array keeps its
  contents: the sibling paths do what the claim asks.
\<close>

lemma filteredExpenses_with_filter_keeps_state_array:
  assumes "expenses < fresh h"
    and "filterCat \<noteq> ''all'' \<or> filterStatus \<noteq> ''all'' \<or> searchTerm \<noteq> []"
  shows "deref (snd (filteredExpenses filterCat filterStatus searchTerm expenses h)) expenses
         = deref h expenses"
proof -
  define s1 where "s1 = (if filterCat \<noteq> ''all''
      then array_filter (\<lambda>e. category e = filterCat) (expenses, h) else (expenses, h))"
  define s2 where "s2 = (if filterStatus \<noteq> ''all''
      then array_filter (\<lambda>e. status e = filterStatus) s1 else s1)"
  define s3 where "s3 = (if searchTerm \<noteq> []
      then array_filter (\<lambda>e. str_includes (toLowerCase (description e)) (toLowerCase searchTerm)
              \<or> str_includes (toLowerCase (vendor e)) (toLowerCase searchTerm)) s2 else s2)"
  have res: "filteredExpenses filterCat filterStatus searchTerm expenses h = array_sort s3"
    by (simp add: filteredExpenses_def s1_def s2_def s3_def Let_def)
  have i1: "fresh h \<le> fresh (snd s1) \<and> deref (snd s1) expenses = deref h expenses
      \<and> (filterCat \<noteq> ''all'' \<longrightarrow> fst s1 \<noteq> expenses) \<and> (fst s1 = expenses \<or> fst s1 \<ge> fresh h)"
    using assms(1) by (simp add: s1_def array_filter_result deref_array_filter_old)
  have i2: "fresh h \<le> fresh (snd s2) \<and> deref (snd s2) expenses = deref h expenses
      \<and> (filterCat \<noteq> ''all'' \<or> filterStatus \<noteq> ''all'' \<longrightarrow> fst s2 \<noteq> expenses)
      \<and> (fst s2 = expenses \<or> fst s2 \<ge> fresh h)"
    using assms(1) i1 by (auto simp: s2_def array_filter_result deref_array_filter_old)
  have i3: "deref (snd s3) expenses = deref h expenses \<and> fst s3 \<noteq> expenses"
    using assms i2 by (auto simp: s3_def array_filter_result deref_array_filter_old)
  show ?thesis using i3 by (simp add: res deref_array_sort_other)
qed


section \<open>The store: paths, reads after writes\<close>

lemma split_slash_nonempty: "split_slash s \<noteq> []"
  by (induction s) (auto split: list.splits)

lemma split_slash_append: "split_slash (a @ CHR ''/'' # b) = split_slash a @ split_slash b"
  by (induction a) (auto split: list.splits simp: split_slash_nonempty)

lemma split_slash_plain: "CHR ''/'' \<notin> set s \<Longrightarrow> split_slash s = [s]"
  by (induction s) (auto split: list.splits)

lemma path_of_append: "path_of (a @ CHR ''/'' # b) = path_of a @ path_of b"
  by (simp add: path_of_def split_slash_append)

lemma path_of_plain: "CHR ''/'' \<notin> set s \<Longrightarrow> s \<noteq> [] \<Longrightarrow> path_of s = [s]"
  by (simp add: path_of_def split_slash_plain)

lemma path_of_users: "path_of (''users/'' @ x) = ''users'' # path_of x"
  using path_of_append [of "''users''" x] by (simp add: path_of_plain)

lemma path_of_invites: "path_of (''invites/'' @ x) = ''invites'' # path_of x"
  using path_of_append [of "''invites''" x] by (simp add: path_of_plain)

lemma path_of_weddings: "path_of (''weddings/'' @ x) = ''weddings'' # path_of x"
  using path_of_append [of "''weddings''" x] by (simp add: path_of_plain)

lemma path_of_members: "path_of (w @ ''/members/'' @ x) = path_of w @ ''members'' # path_of x"
  using path_of_append [of w "''members/'' @ x"] path_of_append [of "''members''" x]
  by (simp add: path_of_plain)

lemma path_of_categories: "path_of (w @ ''/categories/'' @ x) = path_of w @ ''categories'' # path_of x"
  using path_of_append [of w "''categories/'' @ x"] path_of_append [of "''categories''" x]
  by (simp add: path_of_plain)


lemma children_node: "children (node kvs) = kvs"
  by (simp add: node_def children_def)

lemma children_put_child:
  "children (put_child k c t) =
     (if c = JNull then AList.delete k (children t) else AList.update k c (children t))"
  by (simp add: put_child_def children_node)

lemma field_put_child_same: "field (put_child k c t) k = c"
  by (simp add: field_def children_put_child AList.update_conv' AList.delete_conv')

lemma field_put_child_other: "a \<noteq> k \<Longrightarrow> field (put_child k c t) a = field t a"
  by (simp add: field_def children_put_child AList.update_conv' AList.delete_conv')

lemma lookup_set_at_same: "lookup p (set_at p v t) = v"
  by (induction p arbitrary: t) (simp_all add: field_put_child_same)

lemma lookup_set_at_deeper: "lookup p (set_at (p @ q) v t) = set_at q v (lookup p t)"
  by (induction p arbitrary: t) (simp_all add: field_put_child_same)

lemma lookup_set_at_diverge:
  "a \<noteq> b \<Longrightarrow> lookup (c @ a # p) (set_at (c @ b # q) v t) = lookup (c @ a # p) t"
  by (induction c arbitrary: t) (simp_all add: field_put_child_same field_put_child_other)

lemma lookup_set_at_other:
  "a \<noteq> b \<Longrightarrow> lookup (a # p) (set_at (b # q) v t) = lookup (a # p) t"
  using lookup_set_at_diverge [of a b "[]"] by simp

lemma field_JObj: "field (JObj kvs) k = (case map_of kvs k of None \<Rightarrow> JNull | Some v \<Rightarrow> v)"
  by (simp add: field_def children_def)


section \<open>Invite acceptance\<close>

lemma inviteCheck_accepts:
  assumes "email u = Some E" and "E \<noteq> []"
    and "field (get (''invites/'' @ sanitize E) db) ''weddingId'' = JStr H"
  shows "inviteCheck to_string (Some u) now db w0 =
     ([Set (''users/'' @ uid u) (JObj [(''weddingId'', JStr H), (''email'', JStr E)]),
       Set (''weddings/'' @ H @ ''/members/'' @ uid u)
         (JObj [(''email'', JStr E), (''name'', opt_json (js_or (displayName u) (Some E))),
                (''role'', JStr ''partner''), (''joinedAt'', JNum (real now))]),
       Remove (''invites/'' @ sanitize E)],
      JStr H)"
proof -
  have "get (''invites/'' @ sanitize E) db \<noteq> JNull"
    using assms(3) by (auto simp: field_def children_def)
  then show ?thesis
    using assms by (simp add: inviteCheck_def invite_key_consumed_def Let_def template_def)
qed

lemma invite_writes_applied:
  assumes "db1 = apply_ops [Set (''users/'' @ x) prof, Set (''weddings/'' @ H @ ''/members/'' @ x) mem,
                            Remove (''invites/'' @ k)] db"
  shows "get (''invites/'' @ k) db1 = JNull
       \<and> get (''weddings/'' @ H @ ''/members/'' @ x) db1 = mem
       \<and> get (''users/'' @ x) db1 = prof"
proof -
  have db1: "db1 = set_at (path_of (''invites/'' @ k)) JNull
                (set_at (path_of (''weddings/'' @ H @ ''/members/'' @ x)) mem
                  (set_at (path_of (''users/'' @ x)) prof db))"
    by (simp add: assms apply_ops_def)
  have pm: "path_of (''weddings/'' @ H @ ''/members/'' @ x) = ''weddings'' # (path_of H @ ''members'' # path_of x)"
    using path_of_weddings [of "H @ ''/members/'' @ x"] path_of_members [of H x] by simp
  have g1: "get (''invites/'' @ k) db1 = JNull"
    by (simp add: get_def db1 lookup_set_at_same)
  have g2: "get (''weddings/'' @ H @ ''/members/'' @ x) db1 = mem"
    unfolding get_def db1 path_of_invites pm path_of_users
    by (subst lookup_set_at_other, simp, rule lookup_set_at_same)
  have g3: "get (''users/'' @ x) db1 = prof"
    unfolding get_def db1 path_of_invites pm path_of_users
    by (subst lookup_set_at_other, simp, subst lookup_set_at_other, simp, rule lookup_set_at_same)
  show ?thesis using g1 g2 g3 by simp
qed

text \<open>
  C3. Given an invite at the sanitized key of email \<open>E\<close> that points to household
  \<open>H\<close>: after the invite check of the user owning \<open>E\<close> and its writes, the invite is
  gone, \<open>weddings/H/members/uid\<close> has role \<open>partner\<close>, \<open>users/uid\<close> has
  \<open>weddingId = H\<close> and the \<open>weddingId\<close> state is \<open>H\<close>; the check run again on that
  store issues no write and leaves the state \<open>H\<close>.
\<close>

theorem invite_acceptance_once:
  assumes em: "email u = Some E" and ne: "E \<noteq> []"
    and inv: "field (get (''invites/'' @ sanitize E) db) ''weddingId'' = JStr H"
  shows "snd (inviteCheck to_string (Some u) now db w0) = JStr H
    \<and> get (''invites/'' @ sanitize E) (apply_ops (fst (inviteCheck to_string (Some u) now db w0)) db) = JNull
    \<and> field (get (''weddings/'' @ H @ ''/members/'' @ uid u)
         (apply_ops (fst (inviteCheck to_string (Some u) now db w0)) db)) ''role'' = JStr ''partner''
    \<and> field (get (''users/'' @ uid u)
         (apply_ops (fst (inviteCheck to_string (Some u) now db w0)) db)) ''weddingId'' = JStr H
    \<and> inviteCheck to_string (Some u) now' (apply_ops (fst (inviteCheck to_string (Some u) now db w0)) db) (JStr H)
        = ([], JStr H)"
proof -
  define db1 where "db1 = apply_ops (fst (inviteCheck to_string (Some u) now db w0)) db"
  note res = inviteCheck_accepts [OF em ne inv, of to_string now w0]
  have reads: "get (''invites/'' @ sanitize E) db1 = JNull
       \<and> get (''weddings/'' @ H @ ''/members/'' @ uid u) db1 =
           JObj [(''email'', JStr E), (''name'', opt_json (js_or (displayName u) (Some E))),
                 (''role'', JStr ''partner''), (''joinedAt'', JNum (real now))]
       \<and> get (''users/'' @ uid u) db1 = JObj [(''weddingId'', JStr H), (''email'', JStr E)]"
    by (rule invite_writes_applied) (simp add: db1_def res)
  have again: "inviteCheck to_string (Some u) now' db1 (JStr H) = ([], JStr H)"
    using em ne reads by (simp add: inviteCheck_def invite_key_consumed_def)
  show ?thesis
    unfolding db1_def [symmetric] using res reads again by (simp add: field_JObj)
qed

theorem invite_acceptance_once_witness:
  "snd (inviteCheck (\<lambda>v. []) (Some ann) 5 invited_db JNull) = JStr ''w1''
    \<and> get ''invites/ann,lee@x,com'' (apply_ops (fst (inviteCheck (\<lambda>v. []) (Some ann) 5 invited_db JNull)) invited_db) = JNull
    \<and> field (get ''weddings/w1/members/u2''
         (apply_ops (fst (inviteCheck (\<lambda>v. []) (Some ann) 5 invited_db JNull)) invited_db)) ''role'' = JStr ''partner''
    \<and> field (get ''users/u2''
         (apply_ops (fst (inviteCheck (\<lambda>v. []) (Some ann) 5 invited_db JNull)) invited_db)) ''weddingId'' = JStr ''w1''
    \<and> inviteCheck (\<lambda>v. []) (Some ann) 9 (apply_ops (fst (inviteCheck (\<lambda>v. []) (Some ann) 5 invited_db JNull)) invited_db) (JStr ''w1'')
        = ([], JStr ''w1'')"
proof -
  have h1: "email ann = Some ''ann.lee@x.com''" by (simp add: ann_def)
  have h2: "''ann.lee@x.com'' \<noteq> []" by simp
  have h3: "field (get (''invites/'' @ sanitize ''ann.lee@x.com'') invited_db) ''weddingId'' = JStr ''w1''"
    by (simp add: get_def path_of_def sanitize_def invited_db_def field_def children_def)
  show ?thesis
    using invite_acceptance_once [OF h1 h2 h3, of "\<lambda>v. []" 5 JNull 9]
    by (simp add: sanitize_def ann_def)
qed

text \<open>
  The other effect of a login, \<open>resolveWedding\<close>, then finds the profile written by the
  acceptance and resolves to \<open>H\<close> without a write.
\<close>

lemma second_login_resolves_same_household:
  assumes "email u = Some E" and "E \<noteq> []" and "H \<noteq> []"
    and "field (get (''invites/'' @ sanitize E) db) ''weddingId'' = JStr H"
  shows "resolveWedding (Some u) wid now'
           (apply_ops (fst (inviteCheck to_string (Some u) now db w0)) db) = ([], JStr H)"
proof -
  define db1 where "db1 = apply_ops (fst (inviteCheck to_string (Some u) now db w0)) db"
  note res = inviteCheck_accepts [OF assms(1,2,4), of to_string now w0]
  have "get (''invites/'' @ sanitize E) db1 = JNull
       \<and> get (''weddings/'' @ H @ ''/members/'' @ uid u) db1 =
           JObj [(''email'', JStr E), (''name'', opt_json (js_or (displayName u) (Some E))),
                 (''role'', JStr ''partner''), (''joinedAt'', JNum (real now))]
       \<and> get (''users/'' @ uid u) db1 = JObj [(''weddingId'', JStr H), (''email'', JStr E)]"
    by (rule invite_writes_applied) (simp add: db1_def res)
  then show ?thesis
    unfolding db1_def [symmetric] using assms(3)
    by (simp add: resolveWedding_def field_JObj truthy_def)
qed


section \<open>The adapter\<close>

lemma map_of_foldl_update:
  "map_of (foldl (\<lambda>obj kv. AList.update (fst kv) (snd kv) obj) base es) f =
     (case map_of (rev es) f of None \<Rightarrow> map_of base f | Some v \<Rightarrow> Some v)"
proof (induction es arbitrary: base)
  case Nil
  show ?case by simp
next
  case (Cons kv es)
  show ?case
    by (cases kv) (auto simp: Cons.IH AList.update_conv' map_add_def split: option.splits)
qed

lemma keys_foldl_update:
  "fst ` set (foldl (\<lambda>obj kv. AList.update (fst kv) (snd kv) obj) base es) =
     fst ` set base \<union> fst ` set es"
proof -
  have "dom (map_of (foldl (\<lambda>obj kv. AList.update (fst kv) (snd kv) obj) base es)) =
        dom (map_of base) \<union> dom (map_of (rev es))"
    by (auto simp: dom_def map_of_foldl_update split: option.splits)
  then show ?thesis by (simp add: dom_map_of_conv_image_fst)
qed

lemma map_of_rev_distinct:
  assumes "distinct (map fst es)"
  shows "map_of (rev es) = map_of es"
proof -
  have "distinct (map fst (rev es))" using assms by (simp add: rev_map [symmetric])
  then show ?thesis using map_of_inject_set [OF _ assms, of "rev es"] by simp
qed

lemma field_with_key:
  assumes "distinct (map fst (object_entries e))"
  shows "field (with_key key (k, e)) f =
     (case map_of (object_entries e) f of None \<Rightarrow> (if f = key then JStr k else JNull) | Some v \<Rightarrow> v)"
  using assms
  by (simp add: with_key_def spread_over_def field_def children_def map_of_foldl_update
      map_of_rev_distinct split: option.splits)

lemma keyed_copy_with_key:
  assumes "distinct (map fst (object_entries (snd ke)))"
  shows "keyed_copy key ke (with_key key ke)"
proof -
  obtain k e where ke: "ke = (k, e)" by (cases ke)
  have d: "distinct (map fst (object_entries e))" using assms ke by simp
  have a: "field (with_key key (k, e)) key =
      (case map_of (object_entries e) key of None \<Rightarrow> JStr k | Some v \<Rightarrow> v)"
    by (simp add: field_with_key [OF d] split: option.splits)
  have b: "\<forall>fv \<in> set (object_entries e). fst fv \<noteq> key \<longrightarrow> field (with_key key (k, e)) (fst fv) = snd fv"
  proof
    fix fv assume "fv \<in> set (object_entries e)"
    then have "map_of (object_entries e) (fst fv) = Some (snd fv)"
      using d map_of_is_SomeI [of "object_entries e" "fst fv" "snd fv"] by simp
    then show "fst fv \<noteq> key \<longrightarrow> field (with_key key (k, e)) (fst fv) = snd fv"
      by (simp add: field_with_key [OF d])
  qed
  have c: "set (map fst (children (with_key key (k, e)))) = insert key (set (map fst (object_entries e)))"
    by (simp add: with_key_def spread_over_def children_def keys_foldl_update)
  show ?thesis unfolding keyed_copy_def ke using a b c by (auto split: option.splits)
qed

lemma falsy_no_entries: "\<not> truthy v \<Longrightarrow> object_entries v = []"
  by (cases v) (simp_all add: truthy_def object_entries_def)

lemma list_all2_keyed:
  assumes "\<forall>ke \<in> set es. distinct (map fst (object_entries (snd ke)))"
  shows "list_all2 (keyed_copy key) es (map (with_key key) es)"
  using assms by (induction es) (simp_all add: keyed_copy_with_key)

text \<open>
  C4, amended. For an existing snapshot, expenses, guests and vendors (key \<open>id\<close>) and
  members (key \<open>uid\<close>) become, in the order of the snapshot, keyed copies of the stored
  records: the store key is injected unless the stored record has that property itself.
  Categories become the stored records as they are, with no key injected. (Stored records
  are objects, so their property names are distinct.)
\<close>

theorem adapter_normalization:
  assumes "d \<noteq> JNull"
    and "\<forall>m \<in> {''expenses'', ''guests'', ''vendors'', ''members''}.
           \<forall>ke \<in> set (object_entries (field d m)). distinct (map fst (object_entries (snd ke)))"
  shows "(truthy (field d ''categories'') \<longrightarrow>
            st_categories (apply_snapshot d st) = map snd (object_entries (field d ''categories'')))
       \<and> list_all2 (keyed_copy ''id'') (object_entries (field d ''expenses'')) (st_expenses (apply_snapshot d st))
       \<and> list_all2 (keyed_copy ''id'') (object_entries (field d ''guests'')) (st_guests (apply_snapshot d st))
       \<and> list_all2 (keyed_copy ''id'') (object_entries (field d ''vendors'')) (st_vendors (apply_snapshot d st))
       \<and> list_all2 (keyed_copy ''uid'') (object_entries (field d ''members'')) (st_members (apply_snapshot d st))"
proof -
  have e: "st_expenses (apply_snapshot d st) = map (with_key ''id'') (object_entries (field d ''expenses''))"
    using assms(1) by (simp add: apply_snapshot_def falsy_no_entries)
  have g: "st_guests (apply_snapshot d st) = map (with_key ''id'') (object_entries (field d ''guests''))"
    using assms(1) by (simp add: apply_snapshot_def falsy_no_entries)
  have v: "st_vendors (apply_snapshot d st) = map (with_key ''id'') (object_entries (field d ''vendors''))"
    using assms(1) by (simp add: apply_snapshot_def falsy_no_entries)
  have m: "st_members (apply_snapshot d st) = map (with_key ''uid'') (object_entries (field d ''members''))"
    using assms(1) by (simp add: apply_snapshot_def falsy_no_entries)
  have c: "truthy (field d ''categories'') \<longrightarrow>
            st_categories (apply_snapshot d st) = map snd (object_entries (field d ''categories''))"
    using assms(1) by (simp add: apply_snapshot_def object_values_def)
  show ?thesis
    unfolding e g v m using c assms(2) by (simp add: list_all2_keyed)
qed

text \<open>
  C4, as stated: every resulting category's \<open>id\<close> is the key it was stored under, also
  when the stored \<open>id\<close> differs. For the category stored under \<open>venue\<close> with
  \<open>id: "hall"\<close> the result has \<open>id = "hall"\<close>; likewise the expense stored under
  \<open>k1\<close> with \<open>id: "zzz"\<close> keeps \<open>"zzz"\<close>.
\<close>

theorem category_id_is_not_the_key:
  "map (\<lambda>r. field r ''id'') (st_categories (apply_snapshot foreign_id_snapshot initial_state))
     \<noteq> map JStr (map fst (object_entries (field foreign_id_snapshot ''categories'')))
   \<and> map fst (object_entries (field foreign_id_snapshot ''categories'')) = [''venue'']
   \<and> map (\<lambda>r. field r ''id'') (st_categories (apply_snapshot foreign_id_snapshot initial_state)) = [JStr ''hall'']
   \<and> map fst (object_entries (field foreign_id_snapshot ''expenses'')) = [''k1'', ''k2'']
   \<and> map (\<lambda>r. field r ''id'') (st_expenses (apply_snapshot foreign_id_snapshot initial_state)) = [JStr ''zzz'', JStr ''k2'']"
  by (simp add: foreign_id_snapshot_def apply_snapshot_def field_def children_def truthy_def
      object_values_def object_entries_def with_key_def spread_over_def)

theorem adapter_normalization_witness:
  "st_categories (apply_snapshot foreign_id_snapshot initial_state) =
      [JObj [(''id'', JStr ''hall''), (''name'', JStr ''Venue''), (''icon'', JStr ''V''), (''budget'', JNum 0)]]
   \<and> list_all2 (keyed_copy ''id'') (object_entries (field foreign_id_snapshot ''expenses''))
        (st_expenses (apply_snapshot foreign_id_snapshot initial_state))
   \<and> map (\<lambda>r. field r ''id'') (st_expenses (apply_snapshot foreign_id_snapshot initial_state)) = [JStr ''zzz'', JStr ''k2'']
   \<and> st_members (apply_snapshot foreign_id_snapshot initial_state) = []"
proof -
  have h1: "foreign_id_snapshot \<noteq> JNull" by (simp add: foreign_id_snapshot_def)
  have h2: "\<forall>m \<in> {''expenses'', ''guests'', ''vendors'', ''members''}.
           \<forall>ke \<in> set (object_entries (field foreign_id_snapshot m)). distinct (map fst (object_entries (snd ke)))"
    by (simp add: foreign_id_snapshot_def field_def children_def object_entries_def)
  have t: "truthy (field foreign_id_snapshot ''categories'')"
    by (simp add: foreign_id_snapshot_def field_def children_def truthy_def)
  show ?thesis
    using adapter_normalization [OF h1 h2, of initial_state] t
    by (simp add: foreign_id_snapshot_def apply_snapshot_def field_def children_def truthy_def
      object_values_def object_entries_def with_key_def spread_over_def)
qed

text \<open>
  C5, as stated: a snapshot that does not exist yields all collections empty. The handler
  returns at once and the state stays what it was; on the initial state the categories are
  the nine defaults.
\<close>

theorem missing_snapshot_keeps_default_categories:
  "st_categories (apply_snapshot JNull initial_state) \<noteq> []
   \<and> length (st_categories (apply_snapshot JNull initial_state)) = 9"
  by (simp add: apply_snapshot_def initial_state_def DEFAULT_CATEGORIES_def)

text \<open>
  C5, amended. A snapshot that does not exist leaves the state as it was. An existing one
  sets \<open>totalBudget\<close> 30000, \<open>costPerGuest\<close> 75 and \<open>darkMode\<close> false for each of these
  that it lacks, an empty sequence for each of expenses, guests, vendors and members that it
  lacks, and marks the data as loaded.
\<close>

theorem snapshot_tolerance:
  "apply_snapshot JNull st = st
   \<and> st_categories initial_state = map category_json DEFAULT_CATEGORIES
   \<and> st_expenses initial_state = [] \<and> st_guests initial_state = []
   \<and> st_vendors initial_state = [] \<and> st_members initial_state = []
   \<and> st_dataLoaded initial_state = False
   \<and> (d \<noteq> JNull \<longrightarrow>
        (field d ''totalBudget'' = JNull \<longrightarrow> st_totalBudget (apply_snapshot d st) = JNum 30000)
      \<and> (field d ''costPerGuest'' = JNull \<longrightarrow> st_costPerGuest (apply_snapshot d st) = JNum 75)
      \<and> (field d ''darkMode'' = JNull \<longrightarrow> st_darkMode (apply_snapshot d st) = JBool False)
      \<and> (field d ''expenses'' = JNull \<longrightarrow> st_expenses (apply_snapshot d st) = [])
      \<and> (field d ''guests'' = JNull \<longrightarrow> st_guests (apply_snapshot d st) = [])
      \<and> (field d ''vendors'' = JNull \<longrightarrow> st_vendors (apply_snapshot d st) = [])
      \<and> (field d ''members'' = JNull \<longrightarrow> st_members (apply_snapshot d st) = [])
      \<and> st_dataLoaded (apply_snapshot d st))"
proof -
  have a: "apply_snapshot JNull st = st" by (simp add: apply_snapshot_def)
  have b: "st_categories initial_state = map category_json DEFAULT_CATEGORIES
      \<and> st_expenses initial_state = [] \<and> st_guests initial_state = []
      \<and> st_vendors initial_state = [] \<and> st_members initial_state = []
      \<and> st_dataLoaded initial_state = False"
    by (simp add: initial_state_def)
  have c: "d \<noteq> JNull \<longrightarrow>
        (field d ''totalBudget'' = JNull \<longrightarrow> st_totalBudget (apply_snapshot d st) = JNum 30000)
      \<and> (field d ''costPerGuest'' = JNull \<longrightarrow> st_costPerGuest (apply_snapshot d st) = JNum 75)
      \<and> (field d ''darkMode'' = JNull \<longrightarrow> st_darkMode (apply_snapshot d st) = JBool False)
      \<and> (field d ''expenses'' = JNull \<longrightarrow> st_expenses (apply_snapshot d st) = [])
      \<and> (field d ''guests'' = JNull \<longrightarrow> st_guests (apply_snapshot d st) = [])
      \<and> (field d ''vendors'' = JNull \<longrightarrow> st_vendors (apply_snapshot d st) = [])
      \<and> (field d ''members'' = JNull \<longrightarrow> st_members (apply_snapshot d st) = [])
      \<and> st_dataLoaded (apply_snapshot d st)"
    by (simp add: apply_snapshot_def nullish_def truthy_def)
  show ?thesis using a b c by blast
qed

theorem snapshot_tolerance_witness:
  "apply_snapshot JNull initial_state = initial_state
   \<and> st_dataLoaded initial_state = False
   \<and> st_expenses initial_state = [] \<and> st_guests initial_state = []
   \<and> st_vendors initial_state = [] \<and> st_members initial_state = []
   \<and> st_totalBudget (apply_snapshot bare_snapshot initial_state) = JNum 30000
   \<and> st_costPerGuest (apply_snapshot bare_snapshot initial_state) = JNum 75
   \<and> st_darkMode (apply_snapshot bare_snapshot initial_state) = JBool False
   \<and> st_expenses (apply_snapshot bare_snapshot initial_state) = []
   \<and> st_guests (apply_snapshot bare_snapshot initial_state) = []
   \<and> st_vendors (apply_snapshot bare_snapshot initial_state) = []
   \<and> st_members (apply_snapshot bare_snapshot initial_state) = []
   \<and> st_dataLoaded (apply_snapshot bare_snapshot initial_state)"
  using snapshot_tolerance [of initial_state bare_snapshot]
  by (simp add: bare_snapshot_def field_def children_def initial_state_def)


section \<open>Category keys\<close>

lemma base36_now: "last4 (base36 1700000000000) = ''3v28''"
  by (simp add: last4_def base36.simps)

lemma new_id_hair: "new_category_id ''Hair / Makeup'' 1700000000000 = ''hair-/-makeup-3v28''"
  by (simp add: new_category_id_def base36_now trim_def is_space_def toLowerCase_def toLowerChar_def)

lemma seed_keys: "seed_categories = map (\<lambda>c. (cat_id c, category_json c)) DEFAULT_CATEGORIES"
  by (simp add: seed_categories_def DEFAULT_CATEGORIES_def)

lemma addCategory_hair:
  "addCategory (\<lambda>v. []) (JStr ''w1'') ''Hair / Makeup'' ''*'' 1700000000000 =
     [Set ''weddings/w1/categories/hair-/-makeup-3v28''
        (JObj [(''id'', JStr ''hair-/-makeup-3v28''), (''name'', JStr ''Hair / Makeup''),
               (''icon'', JStr ''*''), (''budget'', JNum 0)])]"
  by (simp add: addCategory_def new_id_hair dbSet_def truthy_def template_def category_json_def
      trim_def is_space_def Let_def)

lemma boot_cats: "get ''weddings/w1/categories'' bootstrapped_db = JObj seed_categories"
  by (simp add: bootstrapped_db_def resolveWedding_def get_def path_of_def apply_ops_def bob_def
      field_def children_def put_child_def node_def stored_obj_def opt_json_def js_or_def Let_def)

lemma hair_cats:
  "get ''weddings/w1/categories'' hair_makeup_db =
     JObj (seed_categories @ [(''hair-'', JObj [(''-makeup-3v28'',
        JObj [(''id'', JStr ''hair-/-makeup-3v28''), (''name'', JStr ''Hair / Makeup''),
               (''icon'', JStr ''*''), (''budget'', JNum 0)])])])"
proof -
  have p1: "path_of ''weddings/w1/categories/hair-/-makeup-3v28'' =
      [''weddings'', ''w1'', ''categories''] @ [''hair-'', ''-makeup-3v28'']"
    by (simp add: path_of_def)
  have p2: "path_of ''weddings/w1/categories'' = [''weddings'', ''w1'', ''categories'']"
    by (simp add: path_of_def)
  have b: "lookup [''weddings'', ''w1'', ''categories''] bootstrapped_db = JObj seed_categories"
    using boot_cats by (simp only: get_def p2)
  have "get ''weddings/w1/categories'' hair_makeup_db =
      set_at [''hair-'', ''-makeup-3v28'']
        (JObj [(''id'', JStr ''hair-/-makeup-3v28''), (''name'', JStr ''Hair / Makeup''),
               (''icon'', JStr ''*''), (''budget'', JNum 0)])
        (JObj seed_categories)"
    unfolding hair_makeup_db_def addCategory_hair get_def apply_ops_def
    by (simp only: foldl.simps apply_op.simps p1 p2 lookup_set_at_deeper b)
  then show ?thesis
    by (simp add: put_child_def node_def children_def field_def seed_keys DEFAULT_CATEGORIES_def)
qed

text \<open>
  C10. Claim: every category record the application writes is stored under a key equal to
  its own \<open>id\<close>. The nine seeds are. \<open>addCategory\<close> for the name \<open>Hair / Makeup\<close>
  writes the record with id \<open>hair-/-makeup-3v28\<close> at the path
  \<open>weddings/w1/categories/hair-/-makeup-3v28\<close>, and the slash in the id is a path
  separator: the categories mapping gets the key \<open>hair-\<close>, no key equal to the id,
  and the entry under \<open>hair-\<close> has no \<open>id\<close>, so the adapter's category for it has
  none either.
\<close>

theorem slash_in_name_breaks_category_key:
  "map (\<lambda>kr. field (snd kr) ''id'') seed_categories = map (\<lambda>kr. JStr (fst kr)) seed_categories
   \<and> map fst (children (get ''weddings/w1/categories'' bootstrapped_db)) = map cat_id DEFAULT_CATEGORIES
   \<and> addCategory (\<lambda>v. []) (JStr ''w1'') ''Hair / Makeup'' ''*'' 1700000000000 =
        [Set ''weddings/w1/categories/hair-/-makeup-3v28''
          (JObj [(''id'', JStr ''hair-/-makeup-3v28''), (''name'', JStr ''Hair / Makeup''),
                 (''icon'', JStr ''*''), (''budget'', JNum 0)])]
   \<and> map fst (children (get ''weddings/w1/categories'' hair_makeup_db)) =
        map cat_id DEFAULT_CATEGORIES @ [''hair-'']
   \<and> field (get ''weddings/w1/categories'' hair_makeup_db) ''hair-/-makeup-3v28'' = JNull
   \<and> field (field (get ''weddings/w1/categories'' hair_makeup_db) ''hair-'') ''id'' = JNull
   \<and> field (last (st_categories (apply_snapshot (get ''weddings/w1'' hair_makeup_db) initial_state))) ''id'' = JNull"
proof -
  have p2: "path_of ''weddings/w1/categories'' = [''weddings'', ''w1'', ''categories'']"
    by (simp add: path_of_def)
  have p3: "path_of ''weddings/w1'' = [''weddings'', ''w1'']"
    by (simp add: path_of_def)
  have c: "field (get ''weddings/w1'' hair_makeup_db) ''categories'' = get ''weddings/w1/categories'' hair_makeup_db"
    by (simp add: get_def p2 p3)
  have w: "get ''weddings/w1'' hair_makeup_db \<noteq> JNull"
    using c hair_cats by (auto simp: field_def children_def)
  have s: "st_categories (apply_snapshot (get ''weddings/w1'' hair_makeup_db) initial_state) =
      map snd (seed_categories @ [(''hair-'', JObj [(''-makeup-3v28'',
        JObj [(''id'', JStr ''hair-/-makeup-3v28''), (''name'', JStr ''Hair / Makeup''),
               (''icon'', JStr ''*''), (''budget'', JNum 0)])])])"
    using w by (simp add: apply_snapshot_def c hair_cats truthy_def object_values_def object_entries_def)
  have a1: "map (\<lambda>kr. field (snd kr) ''id'') seed_categories = map (\<lambda>kr. JStr (fst kr)) seed_categories"
    by (simp add: seed_keys DEFAULT_CATEGORIES_def category_json_def field_def children_def)
  have a2: "map fst (children (get ''weddings/w1/categories'' bootstrapped_db)) = map cat_id DEFAULT_CATEGORIES"
    by (simp add: boot_cats children_def seed_keys)
  have a4: "map fst (children (get ''weddings/w1/categories'' hair_makeup_db)) =
        map cat_id DEFAULT_CATEGORIES @ [''hair-'']"
    by (simp add: hair_cats children_def seed_keys)
  have a5: "field (get ''weddings/w1/categories'' hair_makeup_db) ''hair-/-makeup-3v28'' = JNull"
    by (simp add: hair_cats field_def children_def seed_keys DEFAULT_CATEGORIES_def)
  have a6: "field (field (get ''weddings/w1/categories'' hair_makeup_db) ''hair-'') ''id'' = JNull"
    by (simp add: hair_cats field_def children_def seed_keys DEFAULT_CATEGORIES_def)
  have a7: "field (last (st_categories (apply_snapshot (get ''weddings/w1'' hair_makeup_db) initial_state))) ''id'' = JNull"
    by (simp add: s field_def children_def)
  show ?thesis using a1 a2 addCategory_hair a4 a5 a6 a7 by simp
qed




lemma trim_subset: "set (trim s) \<subseteq> set s"
proof -
  have "set (dropWhile is_space (rev (dropWhile is_space s))) \<subseteq> set (rev (dropWhile is_space s))"
    by (rule set_dropWhileD [THEN subsetI])
  also have "\<dots> \<subseteq> set s" using set_dropWhileD [of _ is_space s] by auto
  finally show ?thesis by (simp add: trim_def)
qed

lemma toLowerChar_slash: "c \<noteq> CHR ''/'' \<Longrightarrow> toLowerChar c \<noteq> CHR ''/''"
  by (simp add: toLowerChar_def)

lemma toLowerCase_slash: "CHR ''/'' \<notin> set s \<Longrightarrow> CHR ''/'' \<notin> set (toLowerCase s)"
proof (induction s)
  case Nil
  show ?case by (simp add: toLowerCase_def)
next
  case (Cons c cs)
  have "toLowerChar c \<noteq> CHR ''/''" using Cons.prems by (intro toLowerChar_slash) auto
  moreover have "CHR ''/'' \<notin> set (toLowerCase cs)" using Cons by simp
  ultimately show ?case by (auto simp: toLowerCase_def)
qed

lemma dash_runs_slash: "CHR ''/'' \<notin> set s \<Longrightarrow> CHR ''/'' \<notin> set (dash_runs b s)"
  by (induction s arbitrary: b) auto

lemma base36_slash: "CHR ''/'' \<notin> set (base36 n)"
proof (induction n rule: base36.induct)
  case (1 n)
  have d: "\<And>k. k < 36 \<Longrightarrow> ''0123456789abcdefghijklmnopqrstuvwxyz'' ! k \<noteq> CHR ''/''"
  proof -
    fix k :: nat assume "k < 36"
    then have "''0123456789abcdefghijklmnopqrstuvwxyz'' ! k \<in> set ''0123456789abcdefghijklmnopqrstuvwxyz''"
      by (intro nth_mem) simp
    then show "''0123456789abcdefghijklmnopqrstuvwxyz'' ! k \<noteq> CHR ''/''" by auto
  qed
  show ?case
  proof (cases "n < 36")
    case True
    then show ?thesis using d [of n] by (subst base36.simps) simp
  next
    case False
    then show ?thesis using d [of "n mod 36"] "1.IH" by (subst base36.simps) simp
  qed
qed

lemma new_category_id_slash:
  assumes "CHR ''/'' \<notin> set newCatName"
  shows "CHR ''/'' \<notin> set (new_category_id newCatName now)"
proof -
  have "CHR ''/'' \<notin> set (trim newCatName)" using assms trim_subset by blast
  then have "CHR ''/'' \<notin> set (dash_runs False (toLowerCase (trim newCatName)))"
    by (intro dash_runs_slash toLowerCase_slash)
  moreover have "CHR ''/'' \<notin> set (last4 (base36 now))"
    using base36_slash [of now] set_drop_subset [of "length (base36 now) - 4" "base36 now"]
    by (auto simp: last4_def)
  ultimately show ?thesis by (simp add: new_category_id_def)
qed

lemma path_of_categories_node: "path_of (w @ ''/categories'') = path_of w @ [''categories'']"
  using path_of_append [of w "''categories''"] by (simp add: path_of_plain)

text \<open>
  For a name without a slash the record is stored under the key that is its \<open>id\<close>.
\<close>

lemma addCategory_keyed_by_id:
  assumes "trim newCatName \<noteq> []" and "CHR ''/'' \<notin> set newCatName" and "W \<noteq> []"
  shows "field (get (''weddings/'' @ W @ ''/categories'')
                 (apply_ops (addCategory to_string (JStr W) newCatName icon now) db))
               (new_category_id newCatName now)
         = category_json \<lparr>cat_id = new_category_id newCatName now, cat_name = trim newCatName,
                           cat_icon = icon, cat_budget = 0\<rparr>"
proof -
  define cid where "cid = new_category_id newCatName now"
  define v where "v = category_json \<lparr>cat_id = cid, cat_name = trim newCatName,
                           cat_icon = icon, cat_budget = 0\<rparr>"
  have ne: "cid \<noteq> []" by (simp add: cid_def new_category_id_def)
  have ns: "CHR ''/'' \<notin> set cid" unfolding cid_def using assms(2) by (rule new_category_id_slash)
  have ops: "addCategory to_string (JStr W) newCatName icon now =
      [Set (''weddings/'' @ W @ ''/categories/'' @ cid) v]"
    using assms(1,3) by (simp add: addCategory_def dbSet_def truthy_def template_def Let_def cid_def v_def)
  have p1: "path_of (''weddings/'' @ W @ ''/categories/'' @ cid) = (''weddings'' # path_of W @ [''categories'']) @ [cid]"
    using path_of_weddings [of "W @ ''/categories/'' @ cid"] path_of_categories [of W cid]
      path_of_plain [OF ns ne] by simp
  have p2: "path_of (''weddings/'' @ W @ ''/categories'') = ''weddings'' # path_of W @ [''categories'']"
    using path_of_weddings [of "W @ ''/categories''"] path_of_categories_node [of W] by simp
  have "get (''weddings/'' @ W @ ''/categories'') (apply_ops [Set (''weddings/'' @ W @ ''/categories/'' @ cid) v] db)
      = put_child cid v (lookup (''weddings'' # path_of W @ [''categories'']) db)"
    unfolding get_def apply_ops_def
    by (simp only: foldl.simps apply_op.simps p1 p2 lookup_set_at_deeper set_at.simps)
  then show ?thesis
    unfolding ops cid_def [symmetric] v_def [symmetric] by (simp add: field_put_child_same)
qed


section \<open>Deleting a category\<close>



















section \<open>The exported text read back\<close>










lemma toFixed2_examples:
  "toFixed2 1234.565 = ''1234.57'' \<and> toFixed2 80 = ''80.00'' \<and> toFixed2 0.004 = ''0.00''
   \<and> toFixed2 (- 2.5) = ''-2.50''"
  by (simp add: toFixed2_def dec.simps)





section \<open>The filtered list, sorted; first login\<close>

text \<open>
  Filtering the expenses Flowers (decoration, paid) and DJ Booking (music, unpaid), both
  of vendor Bloom Co, by category \<open>decoration\<close> lists the first only; searching
  \<open>bloom\<close> lists both.
\<close>

theorem filter_composition_scenario:
  "shown (filteredExpenses ''decoration'' ''all'' [] 0 flowers_dj_heap) = [flowers]
   \<and> shown (filteredExpenses ''all'' ''all'' ''bloom'' 0 flowers_dj_heap) = [flowers, dj_booking]"
  by (simp add: shown_def filteredExpenses_def array_sort_def array_filter_def alloc_def deref_def
      flowers_dj_heap_def sort_desc_def flowers_def dj_booking_def date_key_def toLowerCase_def
      toLowerChar_def)

lemma shown_array_filter: "shown (array_filter p lh) = filter p (shown lh)"
  by (cases lh) (simp add: shown_def array_filter_def alloc_def deref_def)

lemma shown_array_sort: "shown (array_sort lh) = sort_desc (shown lh)"
  by (cases lh) (simp add: shown_def array_sort_def deref_def)

text \<open>
  The listed expenses are the matching ones of the state array, sorted: by date
  descending, each as often as it matches.
\<close>

theorem filteredExpenses_result:
  "shown (filteredExpenses filterCat filterStatus searchTerm expenses h) =
     sort_desc (filter (matches filterCat filterStatus searchTerm) (deref h expenses))"
proof -
  have "shown (expenses, h) = deref h expenses" by (simp add: shown_def)
  then show ?thesis
    by (auto simp: filteredExpenses_def Let_def shown_array_sort shown_array_filter matches_def
        intro!: arg_cong [where f = sort_desc] filter_cong)
qed

lemma set_insert_desc: "set (insert_desc e xs) = insert e (set xs)"
  by (induction xs) auto

lemma insert_desc_sorted:
  assumes "sorted_wrt (\<lambda>a b. date_key b \<le> date_key a) xs"
  shows "sorted_wrt (\<lambda>a b. date_key b \<le> date_key a) (insert_desc e xs)"
  using assms
proof (induction xs)
  case Nil
  show ?case by simp
next
  case (Cons x xs)
  show ?case
  proof (cases "date_key x < date_key e")
    case True
    have "\<forall>y \<in> set xs. date_key y \<le> date_key e"
      using Cons.prems True by (auto intro: order_trans less_imp_le)
    then show ?thesis using Cons.prems True by (simp add: less_imp_le)
  next
    case False
    then have "date_key e \<le> date_key x" by simp
    then show ?thesis using Cons False by (auto simp: set_insert_desc)
  qed
qed

lemma foldl_insert_desc_sorted:
  "sorted_wrt (\<lambda>a b. date_key b \<le> date_key a) acc \<Longrightarrow>
   sorted_wrt (\<lambda>a b. date_key b \<le> date_key a) (foldl (\<lambda>acc e. insert_desc e acc) acc xs)"
  by (induction xs arbitrary: acc) (simp_all add: insert_desc_sorted)

lemma count_list_insert_desc: "count_list (insert_desc e xs) y = count_list (e # xs) y"
  by (induction xs) auto

lemma count_list_foldl_insert_desc:
  "count_list (foldl (\<lambda>acc e. insert_desc e acc) acc xs) y = count_list acc y + count_list xs y"
  by (induction xs arbitrary: acc) (simp_all add: count_list_insert_desc)

theorem filteredExpenses_sorted_desc:
  "sorted_wrt (\<lambda>a b. date_key b \<le> date_key a)
     (shown (filteredExpenses filterCat filterStatus searchTerm expenses h))
   \<and> count_list (shown (filteredExpenses filterCat filterStatus searchTerm expenses h)) e
     = count_list (filter (matches filterCat filterStatus searchTerm) (deref h expenses)) e"
proof -
  have "shown (expenses, h) = deref h expenses" by (simp add: shown_def)
  then have r: "shown (filteredExpenses filterCat filterStatus searchTerm expenses h) =
     sort_desc (filter (matches filterCat filterStatus searchTerm) (deref h expenses))"
    by (auto simp: filteredExpenses_def Let_def shown_array_sort shown_array_filter matches_def
        intro!: arg_cong [where f = sort_desc] filter_cong)
  show ?thesis
    unfolding r sort_desc_def
    by (simp add: foldl_insert_desc_sorted count_list_foldl_insert_desc)
qed

text \<open>
  A first login with no profile and no invite: one household with the nine named
  categories, budget 30000, cost per guest 75, the user as its only member with role
  \<open>owner\<close>, the profile pointing at it; a later login resolves to it without a write.
\<close>

lemma bootstrapped_db_value:
  "bootstrapped_db =
     JObj [(''weddings'', JObj [(''w1'',
             JObj [(''owner'', JStr ''u1''), (''createdAt'', JNum 1700000000000),
                   (''totalBudget'', JNum 30000), (''costPerGuest'', JNum 75),
                   (''darkMode'', JBool False), (''categories'', JObj seed_categories),
                   (''members'', JObj [(''u1'',
                      JObj [(''email'', JStr ''bob@x.com''), (''name'', JStr ''Bob''),
                            (''role'', JStr ''owner''), (''joinedAt'', JNum 1700000000000)])])])]),
           (''users'', JObj [(''u1'', JObj [(''weddingId'', JStr ''w1''), (''email'', JStr ''bob@x.com'')])])]"
  by (simp add: bootstrapped_db_def resolveWedding_def get_def path_of_def apply_ops_def bob_def
      field_def children_def put_child_def node_def stored_obj_def opt_json_def js_or_def Let_def)

theorem bootstrap_default_scenario:
  "snd (resolveWedding (Some bob) ''w1'' 1700000000000 JNull) = JStr ''w1''
   \<and> map fst (children (get ''weddings'' bootstrapped_db)) = [''w1'']
   \<and> map (\<lambda>kv. field (snd kv) ''name'') (children (get ''weddings/w1/categories'' bootstrapped_db)) =
       map JStr [''Venue'', ''Catering'', ''Decoration'', ''Photography'', ''Outfit & Attire'',
                 ''Invitations'', ''Music / DJ'', ''Transportation'', ''Miscellaneous'']
   \<and> get ''weddings/w1/totalBudget'' bootstrapped_db = JNum 30000
   \<and> get ''weddings/w1/costPerGuest'' bootstrapped_db = JNum 75
   \<and> get ''weddings/w1/darkMode'' bootstrapped_db = JBool False
   \<and> map fst (children (get ''weddings/w1/members'' bootstrapped_db)) = [''u1'']
   \<and> get ''weddings/w1/members/u1/role'' bootstrapped_db = JStr ''owner''
   \<and> get ''users/u1/weddingId'' bootstrapped_db = JStr ''w1''
   \<and> resolveWedding (Some bob) ''w2'' 1700000000001 bootstrapped_db = ([], JStr ''w1'')"
proof -
  have a: "snd (resolveWedding (Some bob) ''w1'' 1700000000000 JNull) = JStr ''w1''"
    by (simp add: resolveWedding_def get_def path_of_def bob_def field_def children_def Let_def)
  have b: "map fst (children (get ''weddings'' bootstrapped_db)) = [''w1'']"
    by (simp add: bootstrapped_db_value get_def path_of_def field_def children_def)
  have c: "map (\<lambda>kv. field (snd kv) ''name'') (children (get ''weddings/w1/categories'' bootstrapped_db)) =
       map JStr [''Venue'', ''Catering'', ''Decoration'', ''Photography'', ''Outfit & Attire'',
                 ''Invitations'', ''Music / DJ'', ''Transportation'', ''Miscellaneous'']"
    by (simp add: boot_cats children_def seed_keys DEFAULT_CATEGORIES_def category_json_def field_def)
  have d: "get ''weddings/w1/totalBudget'' bootstrapped_db = JNum 30000
      \<and> get ''weddings/w1/costPerGuest'' bootstrapped_db = JNum 75
      \<and> get ''weddings/w1/darkMode'' bootstrapped_db = JBool False"
    by (simp add: bootstrapped_db_value get_def path_of_def field_def children_def)
  have e: "map fst (children (get ''weddings/w1/members'' bootstrapped_db)) = [''u1'']
      \<and> get ''weddings/w1/members/u1/role'' bootstrapped_db = JStr ''owner''
      \<and> get ''users/u1/weddingId'' bootstrapped_db = JStr ''w1''"
    by (simp add: bootstrapped_db_value get_def path_of_def field_def children_def)
  have f: "resolveWedding (Some bob) ''w2'' 1700000000001 bootstrapped_db = ([], JStr ''w1'')"
    by (simp add: bootstrapped_db_value resolveWedding_def get_def path_of_def bob_def field_def
        children_def truthy_def Let_def)
  show ?thesis using a b c d e f by simp
qed

theorem addCategory_keyed_by_id_witness:
  "field (get ''weddings/w1/categories''
            (apply_ops (addCategory sample_to_string (JStr ''w1'') '' String  Quartet '' ''*'' 1700000000000) bootstrapped_db))
         ''string-quartet-3v28''
   = JObj [(''id'', JStr ''string-quartet-3v28''), (''name'', JStr ''String  Quartet''),
           (''icon'', JStr ''*''), (''budget'', JNum 0)]"
proof -
  have h1: "trim '' String  Quartet '' \<noteq> []" by (simp add: trim_def is_space_def)
  have h2: "CHR ''/'' \<notin> set '' String  Quartet ''" by simp
  have h3: "''w1'' \<noteq> []" by simp
  have i: "new_category_id '' String  Quartet '' 1700000000000 = ''string-quartet-3v28''"
    by (simp add: new_category_id_def base36_now trim_def is_space_def toLowerCase_def toLowerChar_def)
  show ?thesis
    using addCategory_keyed_by_id [OF h1 h2 h3, of sample_to_string "''*''" 1700000000000 bootstrapped_db]
    by (simp add: i category_json_def trim_def is_space_def)
qed

theorem filteredExpenses_with_filter_witness:
  "deref (snd (filteredExpenses ''all'' ''all'' ''bloom'' 0 flowers_dj_heap)) 0 = [flowers, dj_booking]
   \<and> deref (snd (filteredExpenses ''all'' ''unpaid'' [] 0 two_expense_heap)) 0 = [hall_jan, dj_feb]"
proof -
  have a: "0 < fresh flowers_dj_heap" by (simp add: flowers_dj_heap_def)
  have b: "0 < fresh two_expense_heap" by (simp add: two_expense_heap_def)
  show ?thesis
    using filteredExpenses_with_filter_keeps_state_array [OF a, of "''all''" "''all''" "''bloom''"]
      filteredExpenses_with_filter_keeps_state_array [OF b, of "''all''" "''unpaid''" "[]"]
    by (simp add: deref_def flowers_dj_heap_def two_expense_heap_def)
qed


theorem second_login_witness:
  "resolveWedding (Some ann) ''w9'' 9
     (apply_ops (fst (inviteCheck sample_to_string (Some ann) 5 invited_db JNull)) invited_db)
   = ([], JStr ''w1'')"
proof -
  have h1: "email ann = Some ''ann.lee@x.com''" by (simp add: ann_def)
  have h2: "''ann.lee@x.com'' \<noteq> []" by simp
  have h3: "''w1'' \<noteq> []" by simp
  have h4: "field (get (''invites/'' @ sanitize ''ann.lee@x.com'') invited_db) ''weddingId'' = JStr ''w1''"
    by (simp add: get_def path_of_def sanitize_def invited_db_def field_def children_def)
  show ?thesis
    using second_login_resolves_same_household [OF h1 h2 h3 h4, of "''w9''" 9 sample_to_string 5 JNull]
    by simp
qed


end
